theory Spec2Isabelle
  imports Complex_Main
begin

section \<open>Python strings\<close>

text \<open>
  A Python \<^verbatim>\<open>str\<close> is a sequence of Unicode code points, so a character is a
  natural number and a string is a list of them. \<open>str\<close> writes an ASCII literal.
\<close>

type_synonym codepoint = nat
type_synonym pystr = "codepoint list"

definition str :: "string \<Rightarrow> pystr" where
  "str s = map of_char s"

text \<open>The character classes of the two regular expressions: \<^verbatim>\<open>[a-z]\<close> and \<^verbatim>\<open>[A-Z]\<close>.\<close>

definition is_lower :: "codepoint \<Rightarrow> bool" where
  "is_lower c = (97 \<le> c \<and> c \<le> 122)"

definition is_upper :: "codepoint \<Rightarrow> bool" where
  "is_upper c = (65 \<le> c \<and> c \<le> 90)"

text \<open>
  \<^verbatim>\<open>\s\<close> in a \<^verbatim>\<open>str\<close> pattern, and the separator of \<^verbatim>\<open>str.split()\<close>: the
  characters for which \<^verbatim>\<open>str.isspace\<close> holds (tab to carriage return, the four
  information separators, space, NEL, no-break space and the Unicode space separators).
\<close>

definition is_space :: "codepoint \<Rightarrow> bool" where
  "is_space c = ((9 \<le> c \<and> c \<le> 13) \<or> (28 \<le> c \<and> c \<le> 32) \<or> c = 133 \<or> c = 160
     \<or> c = 5760 \<or> (8192 \<le> c \<and> c \<le> 8202) \<or> c = 8232 \<or> c = 8233
     \<or> c = 8239 \<or> c = 8287 \<or> c = 12288)"

section \<open>External collaborators\<close>

text \<open>
  The libraries the module imports and the artifacts it loads at start are not part of
  the repository; they are parameters of the model.
\<close>

datatype error = ValueError | IndexError | InferenceFailure

text \<open>A WordNet lemma, as \<open>get_antonym\<close> reads it: the names of its antonym lemmas.\<close>

record lemma_entry =
  antonyms :: "pystr list"

type_synonym synset = "lemma_entry list"

record artifacts =
  demojize :: "pystr \<Rightarrow> pystr"
    \<comment> \<open>\<^verbatim>\<open>emoji.demojize\<close>\<close>
  unicode_lower :: "pystr \<Rightarrow> nat \<Rightarrow> pystr"
    \<comment> \<open>the lower-case mapping of the non-ASCII character at an index of a string
        (one character may map to several; capital sigma depends on its context)\<close>
  unicode_title :: "codepoint \<Rightarrow> pystr"
    \<comment> \<open>the title-case mapping of a non-ASCII character\<close>
  synsets :: "pystr \<Rightarrow> synset list"
    \<comment> \<open>\<^verbatim>\<open>wordnet.synsets\<close>, each synset as the list of its lemmas\<close>
  iter_first :: "pystr list \<Rightarrow> nat"
    \<comment> \<open>which element of a set of strings its iterator yields first (decided by the
        hashes), as an index into the elements in insertion order\<close>
  ENGLISH_STOP_WORDS :: "pystr set"
  vectorizer_transform :: "pystr \<Rightarrow> error + real list"
    \<comment> \<open>\<^verbatim>\<open>vectorizer.transform([s]).toarray()\<close>\<close>
  model_predict :: "real list \<Rightarrow> error + real list"
    \<comment> \<open>\<^verbatim>\<open>model.predict(v)[0]\<close>\<close>
  classes :: "pystr list"
    \<comment> \<open>\<^verbatim>\<open>label_encoder.classes_\<close>\<close>

section \<open>String methods\<close>

text \<open>\<^verbatim>\<open>str.lower\<close>: ASCII letters by the fixed offset, the rest by the Unicode table.\<close>

definition lower_at :: "artifacts \<Rightarrow> pystr \<Rightarrow> nat \<Rightarrow> pystr" where
  "lower_at A s i =
     (let c = s ! i in
      if c < 128 then [if is_upper c then c + 32 else c] else unicode_lower A s i)"

definition lower :: "artifacts \<Rightarrow> pystr \<Rightarrow> pystr" where
  "lower A s = concat (map (lower_at A s) [0..<length s])"

text \<open>\<^verbatim>\<open>str.capitalize\<close>: the first character in title case, the rest in lower case.\<close>

definition title_char :: "artifacts \<Rightarrow> codepoint \<Rightarrow> pystr" where
  "title_char A c =
     (if c < 128 then [if is_lower c then c - 32 else c] else unicode_title A c)"

definition capitalize :: "artifacts \<Rightarrow> pystr \<Rightarrow> pystr" where
  "capitalize A s =
     (case s of [] \<Rightarrow> []
      | c # _ \<Rightarrow> title_char A c @ concat (map (lower_at A s) [1..<length s]))"

text \<open>\<^verbatim>\<open>text.replace(":", " ")\<close>\<close>

definition replace_colon :: "pystr \<Rightarrow> pystr" where
  "replace_colon s = map (\<lambda>c. if c = 58 then 32 else c) s"

text \<open>
  \<^verbatim>\<open>re.sub(r"([a-z])([A-Z])", r"\1 \2", text)\<close>: matches are found left to right and do
  not overlap; the scan resumes after the two characters of a match.
\<close>

fun camel_split :: "pystr \<Rightarrow> pystr" where
  "camel_split (a # b # rest) =
     (if is_lower a \<and> is_upper b then a # 32 # b # camel_split rest
      else a # camel_split (b # rest))"
| "camel_split s = s"

text \<open>\<^verbatim>\<open>re.sub(r'[^a-z\s]', '', text)\<close>\<close>

definition strip_chars :: "pystr \<Rightarrow> pystr" where
  "strip_chars s = filter (\<lambda>c. is_lower c \<or> is_space c) s"

text \<open>
  \<^verbatim>\<open>str.split()\<close> without arguments: the maximal runs of non-whitespace characters.
  \<open>cur\<close> is the word being read.
\<close>

fun split_from :: "pystr \<Rightarrow> pystr \<Rightarrow> pystr list" where
  "split_from cur [] = (if cur = [] then [] else [cur])"
| "split_from cur (c # cs) =
     (if is_space c then (if cur = [] then split_from [] cs else cur # split_from [] cs)
      else split_from (cur @ [c]) cs)"

definition split_ws :: "pystr \<Rightarrow> pystr list" where
  "split_ws s = split_from [] s"

text \<open>\<^verbatim>\<open>' '.join(words)\<close>\<close>

fun join_sp :: "pystr list \<Rightarrow> pystr" where
  "join_sp [] = []"
| "join_sp [w] = w"
| "join_sp (w # ws) = w @ 32 # join_sp ws"

section \<open>The module\<close>

datatype pyobj = Str pystr | NonStr

definition sentiment_mapping :: "(pystr \<times> pystr) list" where
  "sentiment_mapping =
     [(str ''sad'', str ''Negative''),
      (str ''fear'', str ''Negative''),
      (str ''anger'', str ''Negative''),
      (str ''love'', str ''Positive''),
      (str ''joy'', str ''Positive''),
      (str ''surprise'', str ''Neutral'')]"

definition negation_words :: "pystr set" where
  "negation_words = set (map str [''not'', ''no'', ''never'', ''none'', ''nothing'',
     ''nobody'', ''neither'', ''nowhere'', ''without''])"

text \<open>
  \<open>get_antonym\<close>: the set is kept as its distinct elements in insertion order; the
  iterator's first element is the one the hash order puts first.
\<close>

definition set_add :: "pystr list \<Rightarrow> pystr \<Rightarrow> pystr list" where
  "set_add xs x = (if x \<in> set xs then xs else xs @ [x])"

definition collect_antonyms :: "artifacts \<Rightarrow> pystr \<Rightarrow> pystr list" where
  "collect_antonyms A word =
     foldl (\<lambda>acc l. case antonyms l of [] \<Rightarrow> acc | a # _ \<Rightarrow> set_add acc (lower A a))
       [] (concat (synsets A word))"

definition get_antonym :: "artifacts \<Rightarrow> pystr \<Rightarrow> pystr option" where
  "get_antonym A word =
     (let xs = collect_antonyms A word in
      if xs = [] then None else Some (xs ! (iter_first A xs mod length xs)))"

text \<open>The first four statements of \<open>preprocess_text\<close> on a string: the normalization.\<close>

definition normalize :: "artifacts \<Rightarrow> pystr \<Rightarrow> pystr" where
  "normalize A text =
     strip_chars (camel_split (lower A (replace_colon (demojize A text))))"

text \<open>The loop of \<open>preprocess_text\<close>: its two variables, its body, and the iteration.\<close>

record tok_state =
  processed_words :: "pystr list"
  negate :: bool

definition loop_body :: "artifacts \<Rightarrow> pystr \<Rightarrow> tok_state \<Rightarrow> tok_state" where
  "loop_body A word st =
     (if word \<in> negation_words then st\<lparr>negate := True\<rparr>
      else if negate st then
        (case get_antonym A word of
           Some antonym \<Rightarrow>
             if antonym \<noteq> [] \<and> antonym \<notin> ENGLISH_STOP_WORDS A
             then st\<lparr>processed_words := processed_words st @ [antonym], negate := False\<rparr>
             else st\<lparr>processed_words := processed_words st @ [str ''neg_'' @ word],
                     negate := False\<rparr>
         | None \<Rightarrow>
             st\<lparr>processed_words := processed_words st @ [str ''neg_'' @ word],
                negate := False\<rparr>)
      else if word \<notin> ENGLISH_STOP_WORDS A
        then st\<lparr>processed_words := processed_words st @ [word]\<rparr>
        else st)"

fun for_words :: "artifacts \<Rightarrow> pystr list \<Rightarrow> tok_state \<Rightarrow> tok_state" where
  "for_words A [] st = st"
| "for_words A (word # words) st = for_words A words (loop_body A word st)"

definition init_state :: tok_state where
  "init_state = \<lparr>processed_words = [], negate = False\<rparr>"

definition tokenize :: "artifacts \<Rightarrow> pystr list \<Rightarrow> pystr list" where
  "tokenize A words = processed_words (for_words A words init_state)"

definition preprocess_text :: "artifacts \<Rightarrow> pyobj \<Rightarrow> pystr" where
  "preprocess_text A text =
     (case text of
        NonStr \<Rightarrow> []
      | Str s \<Rightarrow> join_sp (tokenize A (split_ws (normalize A s))))"

text \<open>
  \<^verbatim>\<open>np.argmax\<close> on a vector: a scan that keeps the first index of the largest value seen;
  it raises on an empty vector.
\<close>

fun argmax_from :: "nat \<Rightarrow> real \<Rightarrow> nat \<Rightarrow> real list \<Rightarrow> nat" where
  "argmax_from best mp i [] = best"
| "argmax_from best mp i (x # xs) =
     (if x > mp then argmax_from i x (Suc i) xs else argmax_from best mp (Suc i) xs)"

definition argmax :: "real list \<Rightarrow> error + nat" where
  "argmax v = (case v of [] \<Rightarrow> Inl ValueError | x # xs \<Rightarrow> Inr (argmax_from 0 x 1 xs))"

definition sentiment_get :: "pystr \<Rightarrow> pystr" where
  "sentiment_get key =
     (case map_of sentiment_mapping key of Some v \<Rightarrow> v | None \<Rightarrow> str ''Neutral'')"

definition predict_emotion ::
  "artifacts \<Rightarrow> pyobj \<Rightarrow> error + (pystr \<times> pystr \<times> real list)" where
  "predict_emotion A text =
     (let clean_text = preprocess_text A text in
      case vectorizer_transform A clean_text of
        Inl e \<Rightarrow> Inl e
      | Inr vectorized_text \<Rightarrow>
         (case model_predict A vectorized_text of
            Inl e \<Rightarrow> Inl e
          | Inr prediction \<Rightarrow>
             (case argmax prediction of
                Inl e \<Rightarrow> Inl e
              | Inr predicted_index \<Rightarrow>
                 if predicted_index < length (classes A) then
                   (let predicted_emotion = classes A ! predicted_index;
                        predicted_sentiment = sentiment_get (lower A predicted_emotion)
                    in Inr (capitalize A predicted_emotion, predicted_sentiment, prediction))
                 else Inl IndexError)))"

section \<open>Concrete artifacts\<close>

text \<open>
  A small instance of the external collaborators, on which the module can be run: an
  emoji table with one entry, a lexical database with two words, five stop-words, and
  a classifier whose output has two equal largest entries.
\<close>

definition example_demojize :: "pystr \<Rightarrow> pystr" where
  "example_demojize s =
     concat (map (\<lambda>c. if c = 128512 then str '':grinning_face:'' else [c]) s)"

definition example_artifacts :: artifacts where
  "example_artifacts =
     \<lparr>demojize = example_demojize,
      unicode_lower = (\<lambda>s i. [s ! i]),
      unicode_title = (\<lambda>c. [c]),
      synsets = (\<lambda>w.
        if w = str ''good'' then
          [[\<lparr>antonyms = [str ''bad'']\<rparr>, \<lparr>antonyms = []\<rparr>], [\<lparr>antonyms = [str ''evil'']\<rparr>]]
        else if w = str ''happy'' then [[\<lparr>antonyms = [str ''unhappy'']\<rparr>]]
        else []),
      iter_first = (\<lambda>xs. 0),
      ENGLISH_STOP_WORDS = set (map str [''the'', ''i'', ''am'', ''is'', ''a'']),
      vectorizer_transform = (\<lambda>s. Inr [real (length s)]),
      model_predict = (\<lambda>v. Inr [1/10, 2/5, 2/5, 1/20, 3/100, 1/50]),
      classes = map str [''anger'', ''fear'', ''joy'', ''love'', ''sad'', ''surprise'']\<rparr>"

text \<open>
  A second instance, whose classifier answers by the length of the cleaned text and
  whose hash order always puts the element at index \<open>k\<close> first.
\<close>

definition length_classifier :: "real list \<Rightarrow> error + real list" where
  "length_classifier v =
     (if v = [3] then Inr [7/10, 1/10, 1/10, 1/20, 3/100, 1/50]
      else Inr [1/10, 2/5, 2/5, 1/20, 3/100, 1/50])"

definition seeded_artifacts :: "nat \<Rightarrow> artifacts" where
  "seeded_artifacts k =
     example_artifacts\<lparr>iter_first := (\<lambda>xs. k), model_predict := length_classifier\<rparr>"

text \<open>
  The normal form the specification gives for normalized text: lower-case letters and
  the space character only, and no two spaces in a row.
\<close>

fun spec_normal_form :: "pystr \<Rightarrow> bool" where
  "spec_normal_form [] = True"
| "spec_normal_form [c] = (is_lower c \<or> c = 32)"
| "spec_normal_form (c # d # s) =
     ((is_lower c \<or> c = 32) \<and> \<not> (c = 32 \<and> d = 32) \<and> spec_normal_form (d # s))"

section \<open>Normalization\<close>

lemma concat_singletons: "concat (map (\<lambda>i. [f i]) xs) = map f xs"
  by (induction xs) simp_all

lemma lower_ascii:
  assumes "\<forall>c\<in>set s. c < 128"
  shows "lower A s = map (\<lambda>c. if is_upper c then c + 32 else c) s"
proof -
  let ?f = "\<lambda>c. if is_upper c then c + 32 else c"
  have "map (lower_at A s) [0..<length s] = map (\<lambda>i. [?f (s ! i)]) [0..<length s]"
    using assms by (simp add: lower_at_def Let_def)
  then have "lower A s = map (\<lambda>i. ?f (s ! i)) [0..<length s]"
    by (simp only: lower_def concat_singletons)
  also have "\<dots> = map ?f (map ((!) s) [0..<length s])"
    by simp
  also have "\<dots> = map ?f s"
    by (simp only: map_nth)
  finally show ?thesis .
qed

lemma lower_fixed:
  assumes "\<forall>i<length s. lower_at A s i = [s ! i]"
  shows "lower A s = s"
proof -
  have "map (lower_at A s) [0..<length s] = map (\<lambda>i. [s ! i]) [0..<length s]"
    using assms by simp
  then have "lower A s = map ((!) s) [0..<length s]"
    by (simp only: lower_def concat_singletons)
  then show ?thesis
    by (simp only: map_nth)
qed

lemma lower_no_upper:
  assumes "\<forall>i<length t. 128 \<le> t ! i \<longrightarrow> (\<forall>c\<in>set (unicode_lower A t i). \<not> is_upper c)"
  shows "\<forall>c\<in>set (lower A t). \<not> is_upper c"
proof -
  have "\<forall>c\<in>set (lower_at A t i). \<not> is_upper c" if "i < length t" for i
    using assms that by (auto simp: lower_at_def Let_def is_upper_def)
  then show ?thesis
    by (auto simp: lower_def)
qed

lemma camel_split_no_upper: "\<forall>c\<in>set s. \<not> is_upper c \<Longrightarrow> camel_split s = s"
  by (induction s rule: camel_split.induct) simp_all

lemma strip_chars_fixed: "\<forall>c\<in>set s. is_lower c \<or> is_space c \<Longrightarrow> strip_chars s = s"
  by (simp add: strip_chars_def)

lemma replace_colon_fixed: "\<forall>c\<in>set s. is_lower c \<or> is_space c \<Longrightarrow> replace_colon s = s"
  by (induction s) (auto simp: replace_colon_def is_lower_def is_space_def)

lemma normalize_chars: "c \<in> set (normalize A text) \<Longrightarrow> is_lower c \<or> is_space c"
  by (simp add: normalize_def strip_chars_def)

lemma example_demojize_fixed: "\<forall>c\<in>set s. c \<noteq> 128512 \<Longrightarrow> example_demojize s = s"
  by (induction s) (simp_all add: example_demojize_def)

lemma example_normalize_tab: "normalize example_artifacts [97, 9, 98] = [97, 9, 98]"
  by (simp add: normalize_def example_artifacts_def example_demojize_fixed replace_colon_def
      lower_ascii strip_chars_def is_lower_def is_upper_def is_space_def)

lemma example_normalize_colon: "normalize example_artifacts (str ''a: b'') = str ''a  b''"
  by (simp add: normalize_def example_artifacts_def example_demojize_fixed replace_colon_def
      lower_ascii strip_chars_def is_lower_def is_upper_def is_space_def str_def)

lemma normalize_ascii:
  assumes "\<forall>c\<in>set text. c < 128" and "demojize A text = text"
  shows "normalize A text =
           filter (\<lambda>c. is_lower c \<or> is_space c)
             (map (\<lambda>c. if c = 58 then 32 else if is_upper c then c + 32 else c) text)"
proof -
  let ?r = "replace_colon text"
  have ascii: "\<forall>c\<in>set ?r. c < 128"
    using assms(1) by (auto simp: replace_colon_def)
  then have low: "lower A ?r = map (\<lambda>c. if is_upper c then c + 32 else c) ?r"
    by (rule lower_ascii)
  have "\<forall>c\<in>set (lower A ?r). \<not> is_upper c"
    unfolding low by (auto simp: is_upper_def)
  then have "camel_split (lower A ?r) = lower A ?r"
    by (rule camel_split_no_upper)
  moreover have "map (\<lambda>c. if is_upper c then c + 32 else c) ?r =
      map (\<lambda>c. if c = 58 then 32 else if is_upper c then c + 32 else c) text"
    by (simp add: replace_colon_def is_upper_def)
  ultimately show ?thesis
    using assms(2) low by (simp add: normalize_def strip_chars_def)
qed

text \<open>
  C2, as the code has it: every character of the normalized text is a lower-case ASCII
  letter or a whitespace character (any character that \<^verbatim>\<open>\s\<close> matches), and the
  last step removes exactly the other characters, so whitespace other than the space
  and several whitespace characters in a row are kept. For an ASCII text that
  \<^verbatim>\<open>emoji.demojize\<close> leaves alone, the result is the text with each colon turned
  into a space and each letter lower-cased, without the characters that are neither
  letters nor whitespace.
\<close>

theorem normalize_alphabet:
  "(\<forall>c\<in>set (normalize A text). is_lower c \<or> is_space c) \<and>
   normalize A text =
     filter (\<lambda>c. is_lower c \<or> is_space c)
       (camel_split (lower A (replace_colon (demojize A text)))) \<and>
   ((\<forall>c\<in>set text. c < 128) \<and> demojize A text = text \<longrightarrow>
      normalize A text =
        filter (\<lambda>c. is_lower c \<or> is_space c)
          (map (\<lambda>c. if c = 58 then 32 else if is_upper c then c + 32 else c) text))"
  using normalize_ascii [of "text" A] by (simp add: normalize_def strip_chars_def)

theorem normalize_alphabet_witness:
  "normalize example_artifacts [97, 9, 98] = [97, 9, 98] \<and>
   normalize example_artifacts [97, 10, 32, 32, 98] = [97, 10, 32, 32, 98] \<and>
   is_space 9 \<and> is_space 10"
proof -
  let ?f = "\<lambda>c::nat. if c = 58 then 32 else if is_upper c then c + 32 else c"
  let ?P = "\<lambda>c. is_lower c \<or> is_space c"
  have d: "demojize example_artifacts [97, 9, 98] = [97, 9, 98]"
    "demojize example_artifacts [97, 10, 32, 32, 98] = [97, 10, 32, 32, 98]"
    by (simp_all add: example_artifacts_def example_demojize_fixed)
  have h: "\<forall>c\<in>set [97, 9, 98 :: nat]. c < 128" "\<forall>c\<in>set [97, 10, 32, 32, 98 :: nat]. c < 128"
    by simp_all
  have "normalize example_artifacts [97, 9, 98] = filter ?P (map ?f [97, 9, 98])"
    using normalize_alphabet [of example_artifacts "[97, 9, 98]"] d(1) h(1) by blast
  also have "\<dots> = [97, 9, 98]"
    by (simp add: is_lower_def is_upper_def is_space_def)
  finally have a: "normalize example_artifacts [97, 9, 98] = [97, 9, 98]" .
  have "normalize example_artifacts [97, 10, 32, 32, 98] = filter ?P (map ?f [97, 10, 32, 32, 98])"
    using normalize_alphabet [of example_artifacts "[97, 10, 32, 32, 98]"] d(2) h(2) by blast
  also have "\<dots> = [97, 10, 32, 32, 98]"
    by (simp add: is_lower_def is_upper_def is_space_def)
  finally have b: "normalize example_artifacts [97, 10, 32, 32, 98] = [97, 10, 32, 32, 98]" .
  show ?thesis
    using a b by (simp add: is_space_def)
qed

text \<open>
  The text \<^verbatim>\<open>a<TAB>b\<close> keeps its tab, and \<^verbatim>\<open>a: b\<close> becomes \<^verbatim>\<open>a\<close>, two spaces,
  \<^verbatim>\<open>b\<close>: neither output is in the normal form of the specification.
\<close>

theorem normalize_alphabet_counterexample:
  "\<not> spec_normal_form (normalize example_artifacts [97, 9, 98]) \<and>
   \<not> spec_normal_form (normalize example_artifacts (str ''a: b''))"
  unfolding example_normalize_tab example_normalize_colon
  by (simp add: str_def is_lower_def)

text \<open>
  C5: the camel-case substitution is applied to the lower-cased text, which has no
  letter \<^verbatim>\<open>A-Z\<close> (the Unicode table is asked to give none for the characters of the
  text that are beyond ASCII), so it returns its argument unchanged, and the
  normalization is the same without that step.
\<close>

theorem camel_split_noop:
  assumes "\<forall>i<length t. 128 \<le> t ! i \<longrightarrow> (\<forall>c\<in>set (unicode_lower A t i). \<not> is_upper c)"
  shows "(\<forall>c\<in>set (lower A t). \<not> is_upper c) \<and>
         camel_split (lower A t) = lower A t \<and>
         (t = replace_colon (demojize A text) \<longrightarrow> normalize A text = strip_chars (lower A t))"
  using lower_no_upper [OF assms] by (simp add: normalize_def camel_split_no_upper)

theorem camel_split_noop_witness:
  "lower example_artifacts (str ''camelCase'') = str ''camelcase'' \<and>
   camel_split (lower example_artifacts (str ''camelCase'')) = str ''camelcase'' \<and>
   normalize example_artifacts (str ''camelCase'') = str ''camelcase''"
proof -
  let ?t = "str ''camelCase''"
  have h: "\<forall>i<length ?t. 128 \<le> ?t ! i \<longrightarrow>
      (\<forall>c\<in>set (unicode_lower example_artifacts ?t i). \<not> is_upper c)"
    by (simp add: example_artifacts_def is_upper_def)
  have d: "demojize example_artifacts ?t = ?t"
    by (simp add: example_artifacts_def example_demojize_fixed str_def)
  have r: "replace_colon ?t = ?t"
    by (simp add: replace_colon_def str_def)
  have l: "lower example_artifacts ?t = str ''camelcase''"
    by (simp add: lower_ascii str_def is_upper_def)
  have s: "strip_chars (str ''camelcase'') = str ''camelcase''"
    by (simp add: strip_chars_def str_def is_lower_def)
  from camel_split_noop [OF h, of "?t"]
  show ?thesis
    by (simp only: d l r s simp_thms)
qed

text \<open>
  C6: the normalization is idempotent, provided \<^verbatim>\<open>emoji.demojize\<close> leaves a text of
  lower-case letters and whitespace alone and the Unicode table lower-cases the
  whitespace characters beyond ASCII to themselves.
\<close>

theorem normalize_idempotent:
  assumes emoji_free: "\<forall>t. (\<forall>c\<in>set t. is_lower c \<or> is_space c) \<longrightarrow> demojize A t = t"
    and spaces: "\<forall>s i. i < length s \<longrightarrow> 128 \<le> s ! i \<longrightarrow> is_space (s ! i) \<longrightarrow>
                   unicode_lower A s i = [s ! i]"
  shows "normalize A (normalize A x) = normalize A x"
proof -
  let ?y = "normalize A x"
  have chars: "\<forall>c\<in>set ?y. is_lower c \<or> is_space c"
    by (simp add: normalize_chars)
  have "lower_at A ?y i = [?y ! i]" if "i < length ?y" for i
  proof -
    have "is_lower (?y ! i) \<or> is_space (?y ! i)"
      using chars that by simp
    then show ?thesis
      using spaces that by (auto simp: lower_at_def Let_def is_lower_def is_upper_def is_space_def)
  qed
  then have low: "lower A ?y = ?y"
    by (simp add: lower_fixed)
  have "\<forall>c\<in>set ?y. \<not> is_upper c"
    using chars by (auto simp: is_lower_def is_upper_def is_space_def)
  then have camel: "camel_split ?y = ?y"
    by (rule camel_split_no_upper)
  have "demojize A ?y = ?y"
    using emoji_free chars by blast
  then show ?thesis
    using chars low camel
    by (simp add: normalize_def [of A ?y] replace_colon_fixed strip_chars_fixed)
qed

theorem normalize_idempotent_witness:
  "normalize example_artifacts (normalize example_artifacts (str ''a: b'')) =
     normalize example_artifacts (str ''a: b'')"
proof -
  have h1: "\<forall>t. (\<forall>c\<in>set t. is_lower c \<or> is_space c) \<longrightarrow> demojize example_artifacts t = t"
  proof (intro allI impI)
    fix t :: pystr
    assume "\<forall>c\<in>set t. is_lower c \<or> is_space c"
    then have "\<forall>c\<in>set t. c \<noteq> 128512"
      by (auto simp: is_lower_def is_space_def)
    then show "demojize example_artifacts t = t"
      by (simp add: example_artifacts_def example_demojize_fixed)
  qed
  have h2: "\<forall>s i. i < length s \<longrightarrow> 128 \<le> s ! i \<longrightarrow> is_space (s ! i) \<longrightarrow>
      unicode_lower example_artifacts s i = [s ! i]"
    by (simp add: example_artifacts_def)
  from normalize_idempotent [OF h1 h2, of "str ''a: b''"]
  show ?thesis .
qed

section \<open>The tokenizer loop\<close>

lemma for_words_append:
  "for_words A (ws1 @ ws2) st = for_words A ws2 (for_words A ws1 st)"
  by (induction ws1 arbitrary: st) simp_all

lemma loop_body_shift:
  "loop_body A word (st\<lparr>processed_words := ps\<rparr>) =
     (loop_body A word (st\<lparr>processed_words := []\<rparr>))
       \<lparr>processed_words := ps @ processed_words (loop_body A word (st\<lparr>processed_words := []\<rparr>))\<rparr>"
  by (simp add: loop_body_def split: option.splits)

lemma for_words_shift:
  "for_words A ws (st\<lparr>processed_words := ps\<rparr>) =
     (for_words A ws (st\<lparr>processed_words := []\<rparr>))
       \<lparr>processed_words := ps @ processed_words (for_words A ws (st\<lparr>processed_words := []\<rparr>))\<rparr>"
proof (induction ws arbitrary: st ps)
  case Nil
  show ?case by simp
next
  case (Cons w ws)
  let ?b = "loop_body A w (st\<lparr>processed_words := []\<rparr>)"
  have "for_words A (w # ws) (st\<lparr>processed_words := ps\<rparr>) =
        for_words A ws (?b\<lparr>processed_words := ps @ processed_words ?b\<rparr>)"
    by (simp add: loop_body_shift [where word = w and st = st and ps = ps])
  also have "\<dots> = (for_words A ws (?b\<lparr>processed_words := []\<rparr>))
       \<lparr>processed_words := (ps @ processed_words ?b) @
           processed_words (for_words A ws (?b\<lparr>processed_words := []\<rparr>))\<rparr>"
    by (rule Cons.IH)
  finally have l: "for_words A (w # ws) (st\<lparr>processed_words := ps\<rparr>) =
       (for_words A ws (?b\<lparr>processed_words := []\<rparr>))
       \<lparr>processed_words := (ps @ processed_words ?b) @
           processed_words (for_words A ws (?b\<lparr>processed_words := []\<rparr>))\<rparr>" .
  have "for_words A (w # ws) (st\<lparr>processed_words := []\<rparr>) = for_words A ws ?b"
    by simp
  also have "\<dots> = for_words A ws (?b\<lparr>processed_words := processed_words ?b\<rparr>)"
    by simp
  also have "\<dots> = (for_words A ws (?b\<lparr>processed_words := []\<rparr>))
       \<lparr>processed_words := processed_words ?b @
           processed_words (for_words A ws (?b\<lparr>processed_words := []\<rparr>))\<rparr>"
    by (rule Cons.IH)
  finally have r: "for_words A (w # ws) (st\<lparr>processed_words := []\<rparr>) =
       (for_words A ws (?b\<lparr>processed_words := []\<rparr>))
       \<lparr>processed_words := processed_words ?b @
           processed_words (for_words A ws (?b\<lparr>processed_words := []\<rparr>))\<rparr>" .
  show ?case
    by (simp only: l r) simp
qed

lemma tokenize_append:
  "tokenize A (ws1 @ ws2) =
     tokenize A ws1 @
     processed_words (for_words A ws2
       \<lparr>processed_words = [], negate = negate (for_words A ws1 init_state)\<rparr>)"
proof -
  let ?s = "for_words A ws1 init_state"
  have "?s = ?s\<lparr>processed_words := processed_words ?s\<rparr>"
    by simp
  then have "for_words A ws2 ?s = for_words A ws2 (?s\<lparr>processed_words := processed_words ?s\<rparr>)"
    by simp
  also have "\<dots> = (for_words A ws2 (?s\<lparr>processed_words := []\<rparr>))
       \<lparr>processed_words := processed_words ?s @
           processed_words (for_words A ws2 (?s\<lparr>processed_words := []\<rparr>))\<rparr>"
    by (rule for_words_shift)
  finally have "processed_words (for_words A ws2 ?s) =
      processed_words ?s @ processed_words (for_words A ws2 (?s\<lparr>processed_words := []\<rparr>))"
    by simp
  moreover have "?s\<lparr>processed_words := []\<rparr> = \<lparr>processed_words = [], negate = negate ?s\<rparr>"
    by simp
  ultimately show ?thesis
    by (simp add: tokenize_def for_words_append)
qed

lemma for_words_plain:
  assumes "set ws \<inter> negation_words = {}" and "\<not> negate st"
  shows "for_words A ws st =
           st\<lparr>processed_words := processed_words st @ filter (\<lambda>w. w \<notin> ENGLISH_STOP_WORDS A) ws\<rparr>"
  using assms
proof (induction ws arbitrary: st)
  case Nil
  show ?case by simp
next
  case (Cons w ws)
  then show ?case
    by (simp add: loop_body_def)
qed

lemma example_stop_words:
  "ENGLISH_STOP_WORDS example_artifacts = set (map str [''the'', ''i'', ''am'', ''is'', ''a''])"
  by (simp add: example_artifacts_def)

lemma example_antonym_good: "get_antonym example_artifacts (str ''good'') = Some (str ''bad'')"
proof -
  have "collect_antonyms example_artifacts (str ''good'') = [str ''bad'', str ''evil'']"
    by (simp add: collect_antonyms_def set_add_def lower_ascii example_artifacts_def
        str_def is_upper_def)
  then show ?thesis
    by (simp add: get_antonym_def example_artifacts_def)
qed

lemma example_antonym_the: "get_antonym example_artifacts (str ''the'') = None"
  by (simp add: get_antonym_def collect_antonyms_def example_artifacts_def str_def)

lemma example_antonym_movie: "get_antonym example_artifacts (str ''movie'') = None"
  by (simp add: get_antonym_def collect_antonyms_def example_artifacts_def str_def)

lemma never_trigger: "str ''never'' \<in> negation_words"
  by (simp add: negation_words_def str_def)

lemma not_trigger: "str ''not'' \<in> negation_words"
  by (simp add: negation_words_def str_def)

lemma good_no_trigger: "str ''good'' \<notin> negation_words"
  by (simp add: negation_words_def str_def)

lemma the_no_trigger: "str ''the'' \<notin> negation_words"
  by (simp add: negation_words_def str_def)

lemma movie_no_trigger: "str ''movie'' \<notin> negation_words"
  by (simp add: negation_words_def str_def)

lemma normalize_never:
  assumes "demojize A (str ''never'') = str ''never''"
  shows "split_ws (normalize A (str ''never'')) = [str ''never'']"
proof -
  have "lower A (replace_colon (str ''never'')) = str ''never''"
    by (simp add: replace_colon_def lower_ascii str_def is_upper_def)
  moreover have "camel_split (str ''never'') = str ''never''"
    by (simp add: str_def is_upper_def)
  moreover have "strip_chars (str ''never'') = str ''never''"
    by (simp add: strip_chars_def str_def is_lower_def)
  ultimately have "normalize A (str ''never'') = str ''never''"
    using assms by (simp add: normalize_def)
  then show ?thesis
    by (simp add: split_ws_def) (simp add: str_def is_space_def)
qed

text \<open>
  C1: a word read while \<open>negate\<close> is set (a word that is no trigger) adds exactly one
  token, whether or not the word is a stop-word: its antonym when there is one that is no
  stop-word, and \<^verbatim>\<open>neg_\<close> followed by the word otherwise; the flag is reset in both
  cases. The names of the lemmas of the lexical database are taken to be non-empty.
\<close>

theorem negated_word:
  assumes "negate st" and "word \<notin> negation_words" and "get_antonym A word \<noteq> Some []"
  shows "loop_body A word st =
           st\<lparr>processed_words := processed_words st @
                [case get_antonym A word of
                   None \<Rightarrow> str ''neg_'' @ word
                 | Some antonym \<Rightarrow>
                     if antonym \<notin> ENGLISH_STOP_WORDS A then antonym else str ''neg_'' @ word],
              negate := False\<rparr>"
  using assms by (simp add: loop_body_def split: option.splits)

theorem negated_word_witness:
  "loop_body example_artifacts (str ''good'') \<lparr>processed_words = [], negate = True\<rparr> =
     \<lparr>processed_words = [str ''bad''], negate = False\<rparr> \<and>
   str ''the'' \<in> ENGLISH_STOP_WORDS example_artifacts \<and>
   loop_body example_artifacts (str ''the'') \<lparr>processed_words = [], negate = True\<rparr> =
     \<lparr>processed_words = [str ''neg_the''], negate = False\<rparr>"
proof -
  have bad: "str ''bad'' \<notin> ENGLISH_STOP_WORDS example_artifacts"
    by (simp add: example_stop_words) (simp add: str_def)
  have the: "str ''the'' \<in> ENGLISH_STOP_WORDS example_artifacts"
    by (simp add: example_stop_words)
  have neg: "str ''neg_'' @ str ''the'' = str ''neg_the''"
    by (simp add: str_def)
  have nonempty: "str ''bad'' \<noteq> []"
    by (simp add: str_def)
  have "loop_body example_artifacts (str ''good'') \<lparr>processed_words = [], negate = True\<rparr> =
     \<lparr>processed_words = [str ''bad''], negate = False\<rparr>"
    using negated_word [of "\<lparr>processed_words = [], negate = True\<rparr>" "str ''good''" example_artifacts]
    by (simp add: good_no_trigger example_antonym_good bad nonempty)
  moreover
  have "loop_body example_artifacts (str ''the'') \<lparr>processed_words = [], negate = True\<rparr> =
     \<lparr>processed_words = [str ''neg_the''], negate = False\<rparr>"
    using negated_word [of "\<lparr>processed_words = [], negate = True\<rparr>" "str ''the''" example_artifacts]
    by (simp add: the_no_trigger example_antonym_the neg)
  ultimately show ?thesis
    using the by simp
qed

text \<open>
  C3, as the code has it: a trigger word adds no token and sets \<open>negate\<close>. A trigger
  as the last word adds nothing to the tokens of the words before it, which are kept;
  a trigger that is the only word gives no token and the empty joined string, and
  \<^verbatim>\<open>never\<close> is such an input.
\<close>

theorem trigger_word:
  assumes "word \<in> negation_words"
  shows "loop_body A word st = st\<lparr>negate := True\<rparr> \<and>
         tokenize A (words @ [word]) = tokenize A words \<and>
         tokenize A [word] = [] \<and> join_sp (tokenize A [word]) = [] \<and>
         (split_ws (normalize A s) = words @ [word] \<longrightarrow>
            preprocess_text A (Str s) = join_sp (tokenize A words)) \<and>
         (demojize A (str ''never'') = str ''never'' \<longrightarrow>
            preprocess_text A (Str (str ''never'')) = [])"
proof -
  have body: "loop_body A word st' = st'\<lparr>negate := True\<rparr>" for st'
    using assms by (simp add: loop_body_def)
  have last: "tokenize A (ws @ [word]) = tokenize A ws" for ws
    by (simp add: tokenize_def for_words_append body)
  have single: "tokenize A [word] = []"
    by (simp add: tokenize_def body init_state_def)
  have never: "tokenize A [str ''never''] = []"
    by (simp add: tokenize_def loop_body_def never_trigger init_state_def)
  have "preprocess_text A (Str (str ''never'')) = []"
    if "demojize A (str ''never'') = str ''never''"
    using normalize_never [OF that] by (simp add: preprocess_text_def never)
  then show ?thesis
    using body last single by (simp add: preprocess_text_def)
qed

theorem trigger_word_witness:
  "str ''never'' \<in> negation_words \<and>
   tokenize example_artifacts [str ''never''] = [] \<and>
   preprocess_text example_artifacts (Str (str ''never'')) = []"
proof -
  have "demojize example_artifacts (str ''never'') = str ''never''"
    by (simp add: example_artifacts_def example_demojize_fixed str_def)
  then show ?thesis
    using trigger_word [OF never_trigger, of example_artifacts] never_trigger by blast
qed

text \<open>
  The text \<^verbatim>\<open>good never\<close> ends in a trigger and still gives the token
  \<^verbatim>\<open>good\<close>: an input whose last word is a trigger need not give an empty result.
\<close>

theorem trigger_word_counterexample:
  "str ''never'' \<in> negation_words \<and>
   tokenize example_artifacts [str ''good'', str ''never''] = [str ''good''] \<and>
   tokenize example_artifacts [str ''good'', str ''never''] \<noteq> [] \<and>
   preprocess_text example_artifacts (Str (str ''good never'')) = str ''good'' \<and>
   preprocess_text example_artifacts (Str (str ''good never'')) \<noteq> []"
proof -
  have stop: "str ''good'' \<notin> ENGLISH_STOP_WORDS example_artifacts"
    by (simp add: example_stop_words) (simp add: str_def)
  have t: "tokenize example_artifacts [str ''good'', str ''never''] = [str ''good'']"
    by (simp add: tokenize_def init_state_def loop_body_def never_trigger good_no_trigger stop)
  have d: "demojize example_artifacts (str ''good never'') = str ''good never''"
    by (simp add: example_artifacts_def example_demojize_fixed str_def)
  have "\<forall>c\<in>set (str ''good never''). c < 128"
    by (simp add: str_def)
  then have "normalize example_artifacts (str ''good never'') =
      filter (\<lambda>c. is_lower c \<or> is_space c)
        (map (\<lambda>c. if c = 58 then 32 else if is_upper c then c + 32 else c) (str ''good never''))"
    using d by (rule normalize_ascii)
  also have "\<dots> = str ''good never''"
    by (simp add: str_def is_lower_def is_upper_def is_space_def)
  finally have n: "normalize example_artifacts (str ''good never'') = str ''good never''" .
  have s: "split_ws (str ''good never'') = [str ''good'', str ''never'']"
    by (simp add: split_ws_def str_def is_space_def)
  have p: "preprocess_text example_artifacts (Str (str ''good never'')) = str ''good''"
    by (simp add: preprocess_text_def n s t)
  have ne: "str ''good'' \<noteq> []"
    by (simp add: str_def)
  show ?thesis
    using never_trigger t p ne by simp
qed

text \<open>
  C4: a word read while \<open>negate\<close> is clear (a word that is no trigger) is added
  unchanged when it is no stop-word and dropped otherwise. The tokens keep the order of
  their words: the tokens of a text are the tokens of any beginning of it followed by
  those of the rest, and a text without triggers gives its words without the
  stop-words.
\<close>

theorem plain_word:
  assumes "\<not> negate st" and "word \<notin> negation_words"
  shows "loop_body A word st =
           (if word \<notin> ENGLISH_STOP_WORDS A
            then st\<lparr>processed_words := processed_words st @ [word]\<rparr> else st) \<and>
         tokenize A (ws1 @ ws2) =
           tokenize A ws1 @
           processed_words (for_words A ws2
             \<lparr>processed_words = [], negate = negate (for_words A ws1 init_state)\<rparr>) \<and>
         (set ws \<inter> negation_words = {} \<longrightarrow>
            tokenize A ws = filter (\<lambda>w. w \<notin> ENGLISH_STOP_WORDS A) ws)"
proof -
  have "tokenize A ws = filter (\<lambda>w. w \<notin> ENGLISH_STOP_WORDS A) ws"
    if "set ws \<inter> negation_words = {}"
    using for_words_plain [OF that, of init_state A]
    by (simp add: tokenize_def init_state_def)
  then show ?thesis
    using assms tokenize_append [of A ws1 ws2] by (simp add: loop_body_def)
qed

theorem plain_word_witness:
  "loop_body example_artifacts (str ''movie'') \<lparr>processed_words = [str ''bad''], negate = False\<rparr> =
     \<lparr>processed_words = [str ''bad'', str ''movie''], negate = False\<rparr> \<and>
   loop_body example_artifacts (str ''the'') \<lparr>processed_words = [str ''bad''], negate = False\<rparr> =
     \<lparr>processed_words = [str ''bad''], negate = False\<rparr> \<and>
   tokenize example_artifacts [str ''the'', str ''good'', str ''movie''] =
     [str ''good'', str ''movie'']"
proof -
  have stop: "str ''the'' \<in> ENGLISH_STOP_WORDS example_artifacts"
    "str ''movie'' \<notin> ENGLISH_STOP_WORDS example_artifacts"
    "str ''good'' \<notin> ENGLISH_STOP_WORDS example_artifacts"
    by (simp_all add: example_stop_words) (simp_all add: str_def)
  have triggers: "set [str ''the'', str ''good'', str ''movie''] \<inter> negation_words = {}"
    by (simp add: the_no_trigger good_no_trigger movie_no_trigger)
  have a: "loop_body example_artifacts (str ''movie'') \<lparr>processed_words = [str ''bad''], negate = False\<rparr> =
     \<lparr>processed_words = [str ''bad'', str ''movie''], negate = False\<rparr>"
    using plain_word [of "\<lparr>processed_words = [str ''bad''], negate = False\<rparr>" "str ''movie''"
        example_artifacts]
    by (simp add: movie_no_trigger stop)
  have b: "loop_body example_artifacts (str ''the'') \<lparr>processed_words = [str ''bad''], negate = False\<rparr> =
     \<lparr>processed_words = [str ''bad''], negate = False\<rparr>"
    using plain_word [of "\<lparr>processed_words = [str ''bad''], negate = False\<rparr>" "str ''the''"
        example_artifacts]
    by (simp add: the_no_trigger stop)
  have c: "tokenize example_artifacts [str ''the'', str ''good'', str ''movie''] =
     [str ''good'', str ''movie'']"
    using plain_word [of "\<lparr>processed_words = [], negate = False\<rparr>" "str ''the''"
        example_artifacts "[]" "[]" "[str ''the'', str ''good'', str ''movie'']"] triggers
    by (simp add: the_no_trigger stop)
  show ?thesis
    using a b c by simp
qed

text \<open>
  C9: a trigger read while \<open>negate\<close> is set leaves the state as it is: nothing is
  added and the flag stays set. A trigger in front of another trigger changes no token;
  \<^verbatim>\<open>not never good\<close> gives the tokens of \<^verbatim>\<open>never good\<close>.
\<close>

theorem consecutive_triggers:
  assumes "word \<in> negation_words"
  shows "(negate st \<longrightarrow> loop_body A word st = st) \<and>
         (\<forall>t rest. t \<in> negation_words \<longrightarrow>
            tokenize A (t # word # rest) = tokenize A (word # rest)) \<and>
         tokenize A [str ''not'', str ''never'', str ''good''] =
           tokenize A [str ''never'', str ''good'']"
proof -
  have body: "loop_body A t st' = st'\<lparr>negate := True\<rparr>" if "t \<in> negation_words" for t st'
    using that by (simp add: loop_body_def)
  have "tokenize A (t # word # rest) = tokenize A (word # rest)"
    if "t \<in> negation_words" for t rest
    by (simp add: tokenize_def body [OF that] body [OF assms])
  moreover have "tokenize A [str ''not'', str ''never'', str ''good''] =
           tokenize A [str ''never'', str ''good'']"
    by (simp add: tokenize_def body [OF not_trigger] body [OF never_trigger])
  ultimately show ?thesis
    by (simp add: body [OF assms])
qed

theorem consecutive_triggers_witness:
  "str ''never'' \<in> negation_words \<and>
   loop_body example_artifacts (str ''never'') \<lparr>processed_words = [], negate = True\<rparr> =
     \<lparr>processed_words = [], negate = True\<rparr> \<and>
   tokenize example_artifacts [str ''not'', str ''never'', str ''good''] = [str ''bad''] \<and>
   tokenize example_artifacts [str ''never'', str ''good''] = [str ''bad'']"
proof -
  have bad: "str ''bad'' \<notin> ENGLISH_STOP_WORDS example_artifacts"
    by (simp add: example_stop_words) (simp add: str_def)
  have nonempty: "str ''bad'' \<noteq> []"
    by (simp add: str_def)
  have "tokenize example_artifacts [str ''never'', str ''good''] = [str ''bad'']"
    by (simp add: tokenize_def init_state_def loop_body_def never_trigger good_no_trigger
        example_antonym_good bad nonempty)
  then show ?thesis
    using consecutive_triggers [OF never_trigger, of "\<lparr>processed_words = [], negate = True\<rparr>"
        example_artifacts] never_trigger
    by simp
qed

section \<open>Prediction\<close>

lemma argmax_from_first_max:
  assumes "length ys = i" and "best < i" and "ys ! best = mp"
    and "\<forall>j<i. ys ! j \<le> mp" and "\<forall>j<best. ys ! j < mp"
  shows "argmax_from best mp i xs < length (ys @ xs) \<and>
         (\<forall>j<length (ys @ xs). (ys @ xs) ! j \<le> (ys @ xs) ! argmax_from best mp i xs) \<and>
         (\<forall>j<argmax_from best mp i xs. (ys @ xs) ! j < (ys @ xs) ! argmax_from best mp i xs)"
  using assms
proof (induction xs arbitrary: best mp i ys)
  case Nil
  then show ?case by simp
next
  case (Cons x xs)
  show ?case
  proof (cases "x > mp")
    case True
    have "argmax_from i x (Suc i) xs < length ((ys @ [x]) @ xs) \<and>
         (\<forall>j<length ((ys @ [x]) @ xs).
            ((ys @ [x]) @ xs) ! j \<le> ((ys @ [x]) @ xs) ! argmax_from i x (Suc i) xs) \<and>
         (\<forall>j<argmax_from i x (Suc i) xs.
            ((ys @ [x]) @ xs) ! j < ((ys @ [x]) @ xs) ! argmax_from i x (Suc i) xs)"
    proof (rule Cons.IH)
      show "length (ys @ [x]) = Suc i" using Cons.prems by simp
      show "i < Suc i" by simp
      show "(ys @ [x]) ! i = x" using Cons.prems by (simp add: nth_append)
      show "\<forall>j<Suc i. (ys @ [x]) ! j \<le> x"
        using Cons.prems True by (auto simp: nth_append less_Suc_eq intro: less_imp_le order_trans)
      show "\<forall>j<i. (ys @ [x]) ! j < x"
        using Cons.prems True by (auto simp: nth_append intro: le_less_trans)
    qed
    then show ?thesis using True by simp
  next
    case False
    have "argmax_from best mp (Suc i) xs < length ((ys @ [x]) @ xs) \<and>
         (\<forall>j<length ((ys @ [x]) @ xs).
            ((ys @ [x]) @ xs) ! j \<le> ((ys @ [x]) @ xs) ! argmax_from best mp (Suc i) xs) \<and>
         (\<forall>j<argmax_from best mp (Suc i) xs.
            ((ys @ [x]) @ xs) ! j < ((ys @ [x]) @ xs) ! argmax_from best mp (Suc i) xs)"
    proof (rule Cons.IH)
      show "length (ys @ [x]) = Suc i" using Cons.prems by simp
      show "best < Suc i" using Cons.prems by simp
      show "(ys @ [x]) ! best = mp" using Cons.prems by (simp add: nth_append)
      show "\<forall>j<Suc i. (ys @ [x]) ! j \<le> mp"
        using Cons.prems False by (auto simp: nth_append less_Suc_eq)
      show "\<forall>j<best. (ys @ [x]) ! j < mp"
        using Cons.prems by (auto simp: nth_append)
    qed
    then show ?thesis using False by simp
  qed
qed

lemma argmax_first_max:
  assumes "v \<noteq> []"
  shows "\<exists>r. argmax v = Inr r \<and> r < length v \<and> (\<forall>j<length v. v ! j \<le> v ! r) \<and>
           (\<forall>j<r. v ! j < v ! r)"
proof -
  from assms obtain x xs where v: "v = x # xs"
    by (cases v) auto
  have "argmax_from 0 x 1 xs < length ([x] @ xs) \<and>
         (\<forall>j<length ([x] @ xs). ([x] @ xs) ! j \<le> ([x] @ xs) ! argmax_from 0 x 1 xs) \<and>
         (\<forall>j<argmax_from 0 x 1 xs. ([x] @ xs) ! j < ([x] @ xs) ! argmax_from 0 x 1 xs)"
    by (rule argmax_from_first_max) simp_all
  then show ?thesis
    by (simp add: argmax_def v)
qed

lemma first_max_unique:
  fixes v :: "real list"
  assumes "r < length v" and "\<forall>j<length v. v ! j \<le> v ! r" and "\<forall>j<r. v ! j < v ! r"
    and "i < length v" and "\<forall>j<length v. v ! j \<le> v ! i" and "\<forall>j<i. v ! j < v ! i"
  shows "r = i"
proof (rule ccontr)
  assume "r \<noteq> i"
  then consider "r < i" | "i < r" by linarith
  then show False
  proof cases
    case 1
    then have "v ! r < v ! i" using assms by simp
    moreover have "v ! i \<le> v ! r" using assms by simp
    ultimately show False by simp
  next
    case 2
    then have "v ! i < v ! r" using assms by simp
    moreover have "v ! r \<le> v ! i" using assms by simp
    ultimately show False by simp
  qed
qed

lemma capitalize_ascii:
  assumes "c < 128" and "\<forall>d\<in>set cs. d < 128"
  shows "capitalize A (c # cs) =
           (if is_lower c then c - 32 else c) # map (\<lambda>d. if is_upper d then d + 32 else d) cs"
proof -
  let ?f = "\<lambda>d. if is_upper d then d + 32 else d"
  have "\<forall>d\<in>set (c # cs). d < 128"
    using assms by simp
  then have "\<forall>i<length (c # cs). (c # cs) ! i < 128"
    by (simp only: all_set_conv_all_nth)
  then have step: "lower_at A (c # cs) i = [?f ((c # cs) ! i)]" if "i < length (c # cs)" for i
    using that by (simp add: lower_at_def Let_def)
  have "map (lower_at A (c # cs)) [1..<length (c # cs)] =
        map (\<lambda>i. [?f ((c # cs) ! i)]) [1..<length (c # cs)]"
  proof (intro map_cong refl)
    fix x
    assume "x \<in> set [1..<length (c # cs)]"
    then have "x < length (c # cs)"
      by auto
    then show "lower_at A (c # cs) x = [?f ((c # cs) ! x)]"
      by (rule step)
  qed
  then have "concat (map (lower_at A (c # cs)) [1..<length (c # cs)]) =
        map (\<lambda>i. ?f ((c # cs) ! i)) [1..<length (c # cs)]"
    by (simp only: concat_singletons)
  also have "\<dots> = map (\<lambda>i. ?f ((c # cs) ! i)) (map Suc [0..<length cs])"
    by (simp add: map_Suc_upt)
  also have "\<dots> = map ?f (map ((!) cs) [0..<length cs])"
    by simp
  also have "\<dots> = map ?f cs"
    by (simp only: map_nth)
  finally have tail: "concat (map (lower_at A (c # cs)) [1..<length (c # cs)]) = map ?f cs" .
  have "capitalize A (c # cs) =
      title_char A c @ concat (map (lower_at A (c # cs)) [1..<length (c # cs)])"
    by (simp only: capitalize_def list.case)
  also have "title_char A c = [if is_lower c then c - 32 else c]"
    using assms(1) by (simp only: title_char_def if_True)
  finally show ?thesis
    by (simp only: tail append_Cons append_Nil)
qed

lemma example_predict:
  "predict_emotion example_artifacts text =
     Inr (str ''Fear'', str ''Negative'', [1/10, 2/5, 2/5, 1/20, 3/100, 1/50])"
proof -
  have a: "argmax [1/10, 2/5, 2/5, 1/20, 3/100, 1/50] = Inr 1"
    by (simp add: argmax_def)
  have c: "classes example_artifacts ! Suc 0 = str ''fear''"
    "Suc 0 < length (classes example_artifacts)"
    by (simp_all add: example_artifacts_def)
  have l: "lower example_artifacts (str ''fear'') = str ''fear''"
    by (simp add: lower_ascii str_def is_upper_def)
  have s: "sentiment_get (str ''fear'') = str ''Negative''"
    by (simp add: sentiment_get_def sentiment_mapping_def str_def)
  have k: "capitalize example_artifacts (str ''fear'') = str ''Fear''"
    by (simp add: str_def capitalize_ascii is_lower_def is_upper_def)
  have "vectorizer_transform example_artifacts s = Inr [real (length s)]" for s
    by (simp add: example_artifacts_def)
  moreover have "model_predict example_artifacts w = Inr [1/10, 2/5, 2/5, 1/20, 3/100, 1/50]" for w
    by (simp add: example_artifacts_def)
  ultimately show ?thesis
    by (simp add: predict_emotion_def Let_def a c l s k)
qed

text \<open>
  C7: when the classifier returns a vector in which index \<open>i\<close> holds the largest
  value and every earlier index holds a smaller one (so \<open>i\<close> is the lowest index of
  the maximum, whatever ties follow it), \<open>np.argmax\<close> selects \<open>i\<close> and
  \<open>predict_emotion\<close> returns the label at \<open>i\<close>.
\<close>

theorem argmax_lowest_index:
  assumes "vectorizer_transform A (preprocess_text A text) = Inr v"
    and "model_predict A v = Inr probs"
    and "i < length probs"
    and "\<forall>j<length probs. probs ! j \<le> probs ! i"
    and "\<forall>j<i. probs ! j < probs ! i"
    and "i < length (classes A)"
  shows "argmax probs = Inr i \<and>
         predict_emotion A text =
           Inr (capitalize A (classes A ! i), sentiment_get (lower A (classes A ! i)), probs)"
proof -
  have "probs \<noteq> []"
    using assms(3) by auto
  then obtain r where r: "argmax probs = Inr r" "r < length probs"
      "\<forall>j<length probs. probs ! j \<le> probs ! r" "\<forall>j<r. probs ! j < probs ! r"
    using argmax_first_max by blast
  have "r = i"
    using r(2-4) assms(3-5) by (rule first_max_unique)
  then show ?thesis
    using r(1) assms(1,2,6) by (simp add: predict_emotion_def Let_def)
qed

theorem argmax_lowest_index_witness:
  "argmax [1/10, 2/5, 2/5, 1/20, 3/100, 1/50] = Inr 1 \<and>
   predict_emotion example_artifacts (Str (str ''not never good'')) =
     Inr (str ''Fear'', str ''Negative'', [1/10, 2/5, 2/5, 1/20, 3/100, 1/50])"
proof -
  let ?p = "[1/10, 2/5, 2/5, 1/20, 3/100, 1/50] :: real list"
  let ?t = "Str (str ''not never good'')"
  have h1: "vectorizer_transform example_artifacts (preprocess_text example_artifacts ?t) =
      Inr [real (length (preprocess_text example_artifacts ?t))]"
    by (simp add: example_artifacts_def)
  have h2: "model_predict example_artifacts
      [real (length (preprocess_text example_artifacts ?t))] = Inr ?p"
    by (simp add: example_artifacts_def)
  have h3: "1 < length ?p" by simp
  have "\<forall>x\<in>set ?p. x \<le> ?p ! 1" by simp
  then have h4: "\<forall>j<length ?p. ?p ! j \<le> ?p ! 1"
    by (simp only: all_set_conv_all_nth)
  have h5: "\<forall>j<1. ?p ! j < ?p ! 1" by simp
  have h6: "1 < length (classes example_artifacts)"
    by (simp add: example_artifacts_def)
  have c: "classes example_artifacts ! 1 = str ''fear''"
    by (simp add: example_artifacts_def)
  have l: "lower example_artifacts (str ''fear'') = str ''fear''"
    by (simp add: lower_ascii str_def is_upper_def)
  have s: "sentiment_get (str ''fear'') = str ''Negative''"
    by (simp add: sentiment_get_def sentiment_mapping_def str_def)
  have k: "capitalize example_artifacts (str ''fear'') = str ''Fear''"
    by (simp add: str_def capitalize_ascii is_lower_def is_upper_def)
  from argmax_lowest_index [OF h1 h2 h3 h4 h5 h6]
  show ?thesis
    by (simp only: c l s k)
qed

text \<open>
  C8: the sentiment is looked up in the static table: \<^verbatim>\<open>joy\<close> gives
  \<^verbatim>\<open>Positive\<close>, \<^verbatim>\<open>anger\<close> gives \<^verbatim>\<open>Negative\<close>, a key that is not in the table
  gives \<^verbatim>\<open>Neutral\<close>, and every key gives one of the three. A result of
  \<open>predict_emotion\<close> is the capitalized form of one of the classes together with
  the sentiment of its lower-cased form.
\<close>

theorem sentiment_lookup:
  "sentiment_get (str ''joy'') = str ''Positive'' \<and>
   sentiment_get (str ''anger'') = str ''Negative'' \<and>
   (key \<notin> set (map fst sentiment_mapping) \<longrightarrow> sentiment_get key = str ''Neutral'') \<and>
   sentiment_get key \<in> {str ''Positive'', str ''Negative'', str ''Neutral''} \<and>
   (predict_emotion A text = Inr (emotion, sentiment, probs) \<longrightarrow>
      (\<exists>label\<in>set (classes A).
         emotion = capitalize A label \<and> sentiment = sentiment_get (lower A label)))"
proof -
  have joy: "sentiment_get (str ''joy'') = str ''Positive''"
    by (simp add: sentiment_get_def sentiment_mapping_def str_def)
  have anger: "sentiment_get (str ''anger'') = str ''Negative''"
    by (simp add: sentiment_get_def sentiment_mapping_def str_def)
  have absent: "sentiment_get key = str ''Neutral''" if "key \<notin> set (map fst sentiment_mapping)"
  proof -
    have "map_of sentiment_mapping key = None"
      using that by (simp add: map_of_eq_None_iff)
    then show ?thesis
      by (simp add: sentiment_get_def)
  qed
  have range: "sentiment_get key \<in> {str ''Positive'', str ''Negative'', str ''Neutral''}"
  proof (cases "map_of sentiment_mapping key")
    case None
    then show ?thesis by (simp add: sentiment_get_def)
  next
    case (Some v)
    then have "(key, v) \<in> set sentiment_mapping"
      by (rule map_of_SomeD)
    then have "v = str ''Positive'' \<or> v = str ''Negative'' \<or> v = str ''Neutral''"
      by (auto simp: sentiment_mapping_def)
    then show ?thesis
      using Some by (auto simp: sentiment_get_def)
  qed
  have run: "\<exists>label\<in>set (classes A).
         emotion = capitalize A label \<and> sentiment = sentiment_get (lower A label)"
    if "predict_emotion A text = Inr (emotion, sentiment, probs)"
    using that
    by (auto simp: predict_emotion_def Let_def split: sum.splits if_splits)
  show ?thesis
    using joy anger absent range run by blast
qed

theorem sentiment_lookup_witness:
  "sentiment_get (str ''calm'') = str ''Neutral'' \<and>
   predict_emotion example_artifacts (Str (str ''not never good'')) =
     Inr (str ''Fear'', str ''Negative'', [1/10, 2/5, 2/5, 1/20, 3/100, 1/50]) \<and>
   (\<exists>label. label \<in> set (classes example_artifacts) \<and>
      str ''Fear'' = capitalize example_artifacts label \<and>
      str ''Negative'' = sentiment_get (lower example_artifacts label))"
proof -
  have calm: "str ''calm'' \<notin> set (map fst sentiment_mapping)"
    by (simp add: sentiment_mapping_def) (simp add: str_def)
  show ?thesis
    using sentiment_lookup [of "str ''calm''" example_artifacts "Str (str ''not never good'')"
        "str ''Fear''" "str ''Negative''" "[1/10, 2/5, 2/5, 1/20, 3/100, 1/50]"]
      calm example_predict [of "Str (str ''not never good'')"]
    by blast
qed

section \<open>Two runs\<close>

lemma lower_at_iter: "lower_at (A\<lparr>iter_first := f\<rparr>) s = lower_at A s"
  by (rule ext) (simp add: lower_at_def Let_def)

lemma lower_iter: "lower (A\<lparr>iter_first := f\<rparr>) = lower A"
  by (rule ext) (simp add: lower_def lower_at_iter)

lemma title_char_iter: "title_char (A\<lparr>iter_first := f\<rparr>) = title_char A"
  by (rule ext) (simp add: title_char_def)

lemma capitalize_iter: "capitalize (A\<lparr>iter_first := f\<rparr>) s = capitalize A s"
  by (simp only: capitalize_def title_char_iter lower_at_iter)

lemma normalize_iter: "normalize (A\<lparr>iter_first := f\<rparr>) s = normalize A s"
  by (simp add: normalize_def lower_iter)

lemma collect_antonyms_iter:
  "collect_antonyms (A\<lparr>iter_first := f\<rparr>) w = collect_antonyms A w"
  by (simp only: collect_antonyms_def lower_iter) simp

lemma get_antonym_iter:
  assumes "collect_antonyms A w \<noteq> [] \<longrightarrow>
             f (collect_antonyms A w) mod length (collect_antonyms A w) =
             iter_first A (collect_antonyms A w) mod length (collect_antonyms A w)"
  shows "get_antonym (A\<lparr>iter_first := f\<rparr>) w = get_antonym A w"
  using assms by (simp add: get_antonym_def collect_antonyms_iter Let_def)

lemma loop_body_cong:
  assumes "get_antonym B word = get_antonym A word"
    and "ENGLISH_STOP_WORDS B = ENGLISH_STOP_WORDS A"
  shows "loop_body B word st = loop_body A word st"
  using assms by (simp add: loop_body_def split: option.splits)

lemma for_words_cong:
  assumes "\<forall>w\<in>set ws. get_antonym B w = get_antonym A w"
    and "ENGLISH_STOP_WORDS B = ENGLISH_STOP_WORDS A"
  shows "for_words B ws st = for_words A ws st"
  using assms
proof (induction ws arbitrary: st)
  case Nil
  show ?case by simp
next
  case (Cons w ws)
  have "loop_body B w st = loop_body A w st"
    using Cons.prems by (intro loop_body_cong) simp_all
  moreover have "for_words B ws (loop_body A w st) = for_words A ws (loop_body A w st)"
    using Cons.prems by (intro Cons.IH) simp_all
  ultimately show ?case
    by simp
qed

lemma seeded_fields:
  "demojize (seeded_artifacts k) = example_demojize"
  "ENGLISH_STOP_WORDS (seeded_artifacts k) = ENGLISH_STOP_WORDS example_artifacts"
  "vectorizer_transform (seeded_artifacts k) = (\<lambda>s. Inr [real (length s)])"
  "model_predict (seeded_artifacts k) = length_classifier"
  "classes (seeded_artifacts k) = classes example_artifacts"
  "synsets (seeded_artifacts k) = synsets example_artifacts"
  "iter_first (seeded_artifacts k) = (\<lambda>xs. k)"
  by (simp_all add: seeded_artifacts_def example_artifacts_def)

lemma seeded_words:
  "split_ws (normalize (seeded_artifacts k) (str ''not good'')) = [str ''not'', str ''good'']"
proof -
  have d: "demojize (seeded_artifacts k) (str ''not good'') = str ''not good''"
    by (simp add: seeded_fields example_demojize_fixed str_def)
  have "\<forall>c\<in>set (str ''not good''). c < 128"
    by (simp add: str_def)
  then have "normalize (seeded_artifacts k) (str ''not good'') =
      filter (\<lambda>c. is_lower c \<or> is_space c)
        (map (\<lambda>c. if c = 58 then 32 else if is_upper c then c + 32 else c) (str ''not good''))"
    using d by (rule normalize_ascii)
  also have "\<dots> = str ''not good''"
    by (simp add: str_def is_lower_def is_upper_def is_space_def)
  finally have "normalize (seeded_artifacts k) (str ''not good'') = str ''not good''" .
  then show ?thesis
    by (simp add: split_ws_def) (simp add: str_def is_space_def)
qed

lemma seeded_antonyms:
  "collect_antonyms (seeded_artifacts k) (str ''good'') = [str ''bad'', str ''evil'']"
  "collect_antonyms (seeded_artifacts k) (str ''not'') = []"
  by (simp_all add: collect_antonyms_def set_add_def lower_ascii seeded_fields
      example_artifacts_def str_def is_upper_def)

lemma seeded_tokens:
  assumes "get_antonym (seeded_artifacts k) (str ''good'') = Some a" and "a \<noteq> []"
    and "a \<notin> ENGLISH_STOP_WORDS example_artifacts"
  shows "preprocess_text (seeded_artifacts k) (Str (str ''not good'')) = a"
  using assms
  by (simp add: preprocess_text_def seeded_words tokenize_def init_state_def loop_body_def
      not_trigger good_no_trigger seeded_fields)

lemma predict_emotion_eval:
  assumes "preprocess_text A text = clean" and "vectorizer_transform A clean = Inr v"
    and "model_predict A v = Inr p" and "argmax p = Inr i" and "i < length (classes A)"
    and "classes A ! i = l" and "capitalize A l = e" and "sentiment_get (lower A l) = s"
  shows "predict_emotion A text = Inr (e, s, p)"
  using assms by (simp add: predict_emotion_def Let_def)

lemma seeded_bad: "preprocess_text (seeded_artifacts 0) (Str (str ''not good'')) = str ''bad''"
proof (rule seeded_tokens)
  show "get_antonym (seeded_artifacts 0) (str ''good'') = Some (str ''bad'')"
    by (simp add: get_antonym_def seeded_antonyms seeded_fields)
  show "str ''bad'' \<noteq> []"
    by (simp add: str_def)
  show "str ''bad'' \<notin> ENGLISH_STOP_WORDS example_artifacts"
    by (simp add: example_stop_words) (simp add: str_def)
qed

lemma seeded_evil: "preprocess_text (seeded_artifacts 3) (Str (str ''not good'')) = str ''evil''"
proof (rule seeded_tokens)
  show "get_antonym (seeded_artifacts 3) (str ''good'') = Some (str ''evil'')"
    by (simp add: get_antonym_def seeded_antonyms seeded_fields numeral_3_eq_3 mod_Suc)
  show "str ''evil'' \<noteq> []"
    by (simp add: str_def)
  show "str ''evil'' \<notin> ENGLISH_STOP_WORDS example_artifacts"
    by (simp add: example_stop_words) (simp add: str_def)
qed

lemma seeded_anger:
  "predict_emotion (seeded_artifacts 0) (Str (str ''not good'')) =
     Inr (str ''Anger'', str ''Negative'', [7/10, 1/10, 1/10, 1/20, 3/100, 1/50])"
proof (rule predict_emotion_eval)
  show "preprocess_text (seeded_artifacts 0) (Str (str ''not good'')) = str ''bad''"
    by (rule seeded_bad)
  show "vectorizer_transform (seeded_artifacts 0) (str ''bad'') = Inr [3]"
    by (simp add: seeded_fields str_def)
  show "model_predict (seeded_artifacts 0) [3] = Inr [7/10, 1/10, 1/10, 1/20, 3/100, 1/50]"
    by (simp add: seeded_fields length_classifier_def)
  show "argmax [7/10, 1/10, 1/10, 1/20, 3/100, 1/50] = Inr 0"
    by (simp add: argmax_def)
  show "0 < length (classes (seeded_artifacts 0))"
    by (simp add: seeded_fields example_artifacts_def)
  show "classes (seeded_artifacts 0) ! 0 = str ''anger''"
    by (simp add: seeded_fields example_artifacts_def)
  show "capitalize (seeded_artifacts 0) (str ''anger'') = str ''Anger''"
    by (simp add: str_def capitalize_ascii is_lower_def is_upper_def)
  have "lower (seeded_artifacts 0) (str ''anger'') = str ''anger''"
    by (simp add: lower_ascii str_def is_upper_def)
  then show "sentiment_get (lower (seeded_artifacts 0) (str ''anger'')) = str ''Negative''"
    by (simp add: sentiment_get_def sentiment_mapping_def str_def)
qed

lemma seeded_fear:
  "predict_emotion (seeded_artifacts 3) (Str (str ''not good'')) =
     Inr (str ''Fear'', str ''Negative'', [1/10, 2/5, 2/5, 1/20, 3/100, 1/50])"
proof (rule predict_emotion_eval)
  show "preprocess_text (seeded_artifacts 3) (Str (str ''not good'')) = str ''evil''"
    by (rule seeded_evil)
  show "vectorizer_transform (seeded_artifacts 3) (str ''evil'') = Inr [4]"
    by (simp add: seeded_fields str_def)
  show "model_predict (seeded_artifacts 3) [4] = Inr [1/10, 2/5, 2/5, 1/20, 3/100, 1/50]"
    by (simp add: seeded_fields length_classifier_def)
  show "argmax [1/10, 2/5, 2/5, 1/20, 3/100, 1/50] = Inr 1"
    by (simp add: argmax_def)
  show "1 < length (classes (seeded_artifacts 3))"
    by (simp add: seeded_fields example_artifacts_def)
  show "classes (seeded_artifacts 3) ! 1 = str ''fear''"
    by (simp add: seeded_fields example_artifacts_def)
  show "capitalize (seeded_artifacts 3) (str ''fear'') = str ''Fear''"
    by (simp add: str_def capitalize_ascii is_lower_def is_upper_def)
  have "lower (seeded_artifacts 3) (str ''fear'') = str ''fear''"
    by (simp add: lower_ascii str_def is_upper_def)
  then show "sentiment_get (lower (seeded_artifacts 3) (str ''fear'')) = str ''Negative''"
    by (simp add: sentiment_get_def sentiment_mapping_def str_def)
qed

text \<open>
  C10, as the code has it: the result of \<open>predict_emotion\<close> is fixed by the text,
  the vectorizer, the classifier, the label table, the lexical database and the order
  in which the antonym sets are iterated. Two runs on the same text whose artifacts
  differ at most in that order, and whose orders put the same antonym first for every
  word of the text that has one, return the same result.
\<close>

theorem same_hash_order_deterministic:
  assumes "\<forall>w\<in>set (split_ws (normalize A s)).
             collect_antonyms A w \<noteq> [] \<longrightarrow>
               f (collect_antonyms A w) mod length (collect_antonyms A w) =
               iter_first A (collect_antonyms A w) mod length (collect_antonyms A w)"
  shows "predict_emotion (A\<lparr>iter_first := f\<rparr>) (Str s) = predict_emotion A (Str s) \<and>
         predict_emotion (A\<lparr>iter_first := f\<rparr>) NonStr = predict_emotion A NonStr"
proof -
  let ?B = "A\<lparr>iter_first := f\<rparr>"
  have "\<forall>w\<in>set (split_ws (normalize A s)). get_antonym ?B w = get_antonym A w"
    using assms by (simp add: get_antonym_iter)
  then have "for_words ?B (split_ws (normalize A s)) init_state =
      for_words A (split_ws (normalize A s)) init_state"
    by (rule for_words_cong) simp
  then have "preprocess_text ?B (Str s) = preprocess_text A (Str s)"
    by (simp add: preprocess_text_def tokenize_def normalize_iter)
  moreover have "preprocess_text ?B NonStr = preprocess_text A NonStr"
    by (simp add: preprocess_text_def)
  ultimately show ?thesis
    by (simp add: predict_emotion_def Let_def lower_iter capitalize_iter split: sum.splits)
qed

theorem same_hash_order_deterministic_witness:
  "predict_emotion ((seeded_artifacts 0)\<lparr>iter_first := (\<lambda>xs. 2)\<rparr>) (Str (str ''not good'')) =
     Inr (str ''Anger'', str ''Negative'', [7/10, 1/10, 1/10, 1/20, 3/100, 1/50]) \<and>
   predict_emotion (seeded_artifacts 0) (Str (str ''not good'')) =
     Inr (str ''Anger'', str ''Negative'', [7/10, 1/10, 1/10, 1/20, 3/100, 1/50])"
proof -
  have "\<forall>w\<in>set (split_ws (normalize (seeded_artifacts 0) (str ''not good''))).
      collect_antonyms (seeded_artifacts 0) w \<noteq> [] \<longrightarrow>
        (\<lambda>xs. 2) (collect_antonyms (seeded_artifacts 0) w)
          mod length (collect_antonyms (seeded_artifacts 0) w) =
        iter_first (seeded_artifacts 0) (collect_antonyms (seeded_artifacts 0) w)
          mod length (collect_antonyms (seeded_artifacts 0) w)"
    by (simp add: seeded_words seeded_antonyms seeded_fields numeral_2_eq_2)
  from same_hash_order_deterministic [OF this]
  have "predict_emotion ((seeded_artifacts 0)\<lparr>iter_first := (\<lambda>xs. 2)\<rparr>) (Str (str ''not good'')) =
     predict_emotion (seeded_artifacts 0) (Str (str ''not good''))"
    by (rule conjunct1)
  then show ?thesis
    by (simp only: seeded_anger simp_thms)
qed

text \<open>
  With the same vectorizer, classifier, label table and lexical database, and a hash
  order that puts another antonym of \<^verbatim>\<open>good\<close> first, the text \<^verbatim>\<open>not good\<close> is
  cleaned to \<^verbatim>\<open>evil\<close> instead of \<^verbatim>\<open>bad\<close> and the result differs.
\<close>

theorem predict_emotion_deterministic_counterexample:
  "vectorizer_transform (seeded_artifacts 0) = vectorizer_transform (seeded_artifacts 3) \<and>
   model_predict (seeded_artifacts 0) = model_predict (seeded_artifacts 3) \<and>
   classes (seeded_artifacts 0) = classes (seeded_artifacts 3) \<and>
   synsets (seeded_artifacts 0) = synsets (seeded_artifacts 3) \<and>
   predict_emotion (seeded_artifacts 0) (Str (str ''not good'')) \<noteq>
     predict_emotion (seeded_artifacts 3) (Str (str ''not good''))"
proof -
  have "str ''Anger'' \<noteq> str ''Fear''"
    by (simp add: str_def)
  then have "predict_emotion (seeded_artifacts 0) (Str (str ''not good'')) \<noteq>
     predict_emotion (seeded_artifacts 3) (Str (str ''not good''))"
    by (simp only: seeded_anger seeded_fear) simp
  then show ?thesis
    by (simp only: seeded_fields simp_thms)
qed

end
